theory Spec2Isabelle
  imports Complex_Main
begin

section \<open>Values drawn from outside the program\<close>

text \<open>
  The program is a React component (\<^verbatim>\<open>App\<close> in \<^verbatim>\<open>src/index.tsx\<close>) with helper
  functions in \<^verbatim>\<open>src/utils.ts\<close>. Numbers are modelled as \<^typ>\<open>int\<close> (all values
  the handlers compute stay far below the range where a JavaScript number stops being
  an exact integer). Strings are \<^typ>\<open>string\<close>; every literal of the program that is
  used below is ASCII, except the emojis, which are kept as lists of Unicode code
  points.

  Every call of \<^verbatim>\<open>Math.random()\<close> is an input of the model: a rational number
  that the caller supplies. \<^verbatim>\<open>Math.random()\<close> promises a value in \<open>[0, 1)\<close>; the
  model does not assume it, and reads an array out of range as JavaScript does
  (the result is \<^verbatim>\<open>undefined\<close>, here \<^term>\<open>None\<close>).
\<close>

definition randomInt :: "rat \<Rightarrow> int \<Rightarrow> int \<Rightarrow> int" where
  \<comment> \<open>\<^verbatim>\<open>Math.floor(Math.random() * (max - min + 1)) + min\<close>\<close>
  "randomInt u mn mx = \<lfloor>u * of_int (mx - mn + 1)\<rfloor> + mn"

definition randomItem :: "'a list \<Rightarrow> rat \<Rightarrow> 'a option" where
  \<comment> \<open>\<^verbatim>\<open>arr[Math.floor(Math.random() * arr.length)]\<close>\<close>
  "randomItem arr u =
     (let i = \<lfloor>u * of_nat (length arr)\<rfloor>
      in if 0 \<le> i \<and> i < int (length arr) then Some (arr ! nat i) else None)"

definition snippets :: "string list" where
  "snippets =
     [''0x4F3A void main() {'',
      ''  system.failure(0x00);'',
      ''  if (human) break;'',
      ''  // MEMORY LEAK DETECTED'',
      ''  while(true) { spawn(); }'',
      ''  <buffer_overflow>'',
      ''  segmentation fault (core dumped)'',
      ''  00101010 11001010'',
      ''  ERROR: CAPTCHA_FAILED'',
      ''  retrieving: chihuahua.jpg'',
      ''  analyzing texture...'',
      ''  geometry.collision(true);'']"

definition newline :: char where
  "newline = CHR 0x0A"

definition snippet_or_undefined :: "string option \<Rightarrow> string" where
  \<comment> \<open>string concatenation turns \<^verbatim>\<open>undefined\<close> into the text \<^verbatim>\<open>undefined\<close>\<close>
  "snippet_or_undefined r = (case r of Some s \<Rightarrow> s | None \<Rightarrow> ''undefined'')"

function code_loop :: "(nat \<Rightarrow> rat) \<Rightarrow> nat \<Rightarrow> nat \<Rightarrow> string \<Rightarrow> string" where
  \<comment> \<open>\<^verbatim>\<open>for (let i = 0; i < lines; i++) code += randomItem(snippets) + "\n"\<close>;
      \<open>us i\<close> is the draw of iteration \<open>i\<close>\<close>
  "code_loop us i lines code =
     (if i < lines
      then code_loop us (Suc i) lines
             (code @ snippet_or_undefined (randomItem snippets (us i)) @ [newline])
      else code)"
  by pat_completeness auto
termination
  by (relation "measure (\<lambda>(us, i, lines, code). lines - i)") auto

declare code_loop.simps [simp del]

definition generateRandomCode :: "(nat \<Rightarrow> rat) \<Rightarrow> nat \<Rightarrow> string" where
  "generateRandomCode us lines = code_loop us 0 lines []"

definition default_lines :: nat where
  \<comment> \<open>the default of the parameter \<^verbatim>\<open>lines\<close>\<close>
  "default_lines = 20"

section \<open>Catalogs\<close>

type_synonym emoji = "nat list"

record visual =
  img :: string
  emojis :: "emoji list"
  sound :: string

definition MAX_WINDOWS :: nat where
  "MAX_WINDOWS = 40"

definition SUCCESS_CODES :: "string list" where
  "SUCCESS_CODES =
     [''A1B1'', ''A2B2'', ''A3B3'', ''A4B4'', ''A5B3'', ''A6B1'', ''A6B2'', ''A6B3'']"

definition TASK_MAP :: "string \<rightharpoonup> string" where
  "TASK_MAP =
     [''A1'' \<mapsto> ''Seleziona tutti gli organismi viventi :'',
      ''A2'' \<mapsto> ''Seleziona tutti gli oggetti che possono essere utilizzati per la navigazione :'',
      ''A3'' \<mapsto> ''Seleziona tutti gli oggetti che svolgono funzioni di pubblica sicurezza :'',
      ''A4'' \<mapsto> ''Seleziona gli oggetti che assomigliano a volti umani :'',
      ''A5'' \<mapsto> ''Seleziona tutti gli oggetti contenenti elementi rossi :'',
      ''A6'' \<mapsto> ''Seleziona oggetti appartenenti al mondo reale:'']"

definition VISUAL_MAP :: "string \<rightharpoonup> visual" where
  "VISUAL_MAP =
     [''B1'' \<mapsto> \<lparr>img = ''B1.jpg'',
                 emojis = [[0x1F436], [0x1F9C1], [0x1F36A], [0x1F429]],
                 sound = ''/bark.mp3''\<rparr>,
      ''B2'' \<mapsto> \<lparr>img = ''B2.jpg'',
                 emojis = [[0x1F6A6], [0x1F6D1], [0x1F6B2], [0x1F6E3, 0xFE0F]],
                 sound = ''/honk.mp3''\<rparr>,
      ''B3'' \<mapsto> \<lparr>img = ''B3.jpg'',
                 emojis = [[0x1F9EF], [0x1F692], [0x1F525], [0x1F4A6]],
                 sound = ''/siren.mp3''\<rparr>,
      ''B4'' \<mapsto> \<lparr>img = ''B4.jpg'',
                 emojis = [[0x1F441, 0xFE0F], [0x1F444], [0x1F921], [0x1F47A]],
                 sound = ''/glitch_voice.mp3''\<rparr>]"

definition fallback_emojis :: "emoji list" where
  "fallback_emojis = [[0x26A0, 0xFE0F], [0x274C], [0x1F6AB]]"

section \<open>Windows\<close>

datatype WindowType = IMAGE | TEXT | CODE | CAPTCHA | ERROR

datatype content =
    Text string
  | Code string
  | Image "emoji option" "string option" string string
      \<comment> \<open>\<^verbatim>\<open>{ emoji, bgImage, color1, color2 }\<close>\<close>
  | Captcha "string option" "emoji list"
      \<comment> \<open>\<^verbatim>\<open>{ bgImage, emojis }\<close>\<close>
  | Undefined

record WindowData =
  w_id :: string
  w_type :: "WindowType option"
  w_x :: int
  w_y :: int
  w_width :: int
  w_height :: int
  w_zIndex :: int
  w_title :: string
  w_content :: content
  w_rotation :: int

text \<open>
  What one call of \<^verbatim>\<open>createRandomWindow\<close> reads from outside: the result of
  \<^verbatim>\<open>generateId()\<close>, one draw for each \<^verbatim>\<open>Math.random()\<close> that decides a
  field, and the size of the viewport. The sounds the call requests do not
  enter the window or the session state and are left out.
\<close>

record ambient =
  a_id :: string
  a_type :: rat
  a_width :: rat
  a_height :: rat
  a_emoji :: rat
  a_posX :: rat
  a_posY :: rat
  a_rotation :: rat
  a_code :: "nat \<Rightarrow> rat"
  innerWidth :: int
  innerHeight :: int

definition truthy :: "string option \<Rightarrow> bool" where
  \<comment> \<open>an optional string parameter in a condition: neither \<^verbatim>\<open>undefined\<close> nor empty\<close>
  "truthy p = (case p of None \<Rightarrow> False | Some s \<Rightarrow> s \<noteq> [])"

definition lookup :: "(string \<rightharpoonup> 'a) \<Rightarrow> string option \<Rightarrow> 'a option" where
  \<comment> \<open>\<^verbatim>\<open>k && M[k] ? M[k] : null\<close> for a catalog \<open>M\<close> whose entries are all truthy\<close>
  "lookup m p = (case p of None \<Rightarrow> None | Some k \<Rightarrow> if k \<noteq> [] then m k else None)"

definition interpolate :: "string option \<Rightarrow> string" where
  \<comment> \<open>a value inside a template literal\<close>
  "interpolate p = (case p of None \<Rightarrow> ''undefined'' | Some k \<Rightarrow> k)"

definition types :: "WindowType list" where
  "types = [IMAGE, TEXT, CODE, CAPTCHA]"

definition createRandomWindow ::
  "ambient \<Rightarrow> int \<Rightarrow> int option \<Rightarrow> int option \<Rightarrow> string option \<Rightarrow> string option \<Rightarrow> WindowData"
where
  "createRandomWindow a zIndex x y taskId visualId =
     (let visualData = lookup VISUAL_MAP visualId;
          ty = randomItem types (a_type a);
          wd = (if ty = Some CAPTCHA then 300 else randomInt (a_width a) 200 400);
          ht = (if ty = Some CAPTCHA then 320 else randomInt (a_height a) 150 300);
          taskText = (case lookup TASK_MAP taskId of
                        Some t \<Rightarrow> t | None \<Rightarrow> ''SYSTEM FAILURE'');
          emojiList = (case visualData of Some v \<Rightarrow> emojis v | None \<Rightarrow> fallback_emojis);
          bgImg = (case visualData of Some v \<Rightarrow> Some (img v) | None \<Rightarrow> None);
          (cont, ttl) =
            (if ty = Some TEXT then
               (Text taskText,
                if truthy taskId then ''Task: '' @ interpolate taskId else ''Warning'')
             else if ty = Some CODE then
               (Code (generateRandomCode (a_code a) default_lines), ''Terminal.exe'')
             else if ty = Some IMAGE then
               (Image (randomItem emojiList (a_emoji a)) bgImg ''#ff9a9e'' ''#fecfef'',
                if truthy visualId
                then interpolate (map_option img visualData)
                else ''image.jpg'')
             else if ty = Some CAPTCHA then
               (Captcha bgImg emojiList, take 25 taskText @ ''...'')
             else (Undefined, ''System Alert''));
          safeWidth = min wd (innerWidth a - 40);
          posX = (case x of Some v \<Rightarrow> v
                  | None \<Rightarrow> randomInt (a_posX a) 10 (max 10 (innerWidth a - safeWidth - 20)));
          posY = (case y of Some v \<Rightarrow> v
                  | None \<Rightarrow> randomInt (a_posY a) 60 (max 60 (innerHeight a - ht - 60)))
      in \<lparr>w_id = a_id a, w_type = ty, w_x = posX, w_y = posY, w_width = safeWidth,
          w_height = ht, w_zIndex = zIndex, w_title = ttl, w_content = cont,
          w_rotation = randomInt (a_rotation a) (-3) 3\<rparr>)"

section \<open>The session\<close>

text \<open>
  The state of \<^verbatim>\<open>App\<close>, one field for each \<^verbatim>\<open>useState\<close> that the handlers
  below read or write (the mouse position and the probability readout are
  display only). A handler runs against the state of the latest render; the
  updates it queues are applied in the order they were queued before anything
  else runs, so a handler is a function from the state to the next state.
  A queued updater function (\<^verbatim>\<open>prev => ...\<close>) receives the result of the
  updates queued before it; a value read directly (\<^verbatim>\<open>windows.length\<close>,
  \<^verbatim>\<open>zCounter\<close>) is the one of the latest render.
\<close>

datatype mode = Intro | Verified | Crash

record session =
  mode :: mode
  inputCode :: string
  errorMsg :: string
  windows :: "WindowData list"
  zCounter :: int
  crashTask :: string
  crashVisual :: string

definition initial :: session where
  "initial = \<lparr>mode = Intro, inputCode = [], errorMsg = [], windows = [],
              zCounter = 100, crashTask = [], crashVisual = []\<rparr>"

subsection \<open>Normalising and classifying the code\<close>

text \<open>
  \<^verbatim>\<open>trim\<close> and \<^verbatim>\<open>toUpperCase\<close> are modelled on ASCII: the white space is tab,
  line feed, vertical tab, form feed, carriage return and space, and the letters
  \<open>a\<close> to \<open>z\<close> are the ones that change.
\<close>

definition isWhiteSpace :: "char \<Rightarrow> bool" where
  "isWhiteSpace c =
     (c \<in> set [CHR 0x09, CHR 0x0A, CHR 0x0B, CHR 0x0C, CHR 0x0D, CHR 0x20])"

definition trim :: "string \<Rightarrow> string" where
  "trim s = rev (dropWhile isWhiteSpace (rev (dropWhile isWhiteSpace s)))"

definition upper_char :: "char \<Rightarrow> char" where
  "upper_char c =
     (case map_of (zip ''abcdefghijklmnopqrstuvwxyz'' ''ABCDEFGHIJKLMNOPQRSTUVWXYZ'') c of
        Some u \<Rightarrow> u
      | None \<Rightarrow> c)"

definition toUpperCase :: "string \<Rightarrow> string" where
  "toUpperCase s = map upper_char s"

definition crashRegex_test :: "string \<Rightarrow> bool" where
  \<comment> \<open>\<^verbatim>\<open>/^A[1-6]B[1-4]$/.test(code)\<close>\<close>
  "crashRegex_test code =
     (case code of
        [a, m, b, n] \<Rightarrow>
          a = CHR ''A'' \<and> m \<in> set ''123456'' \<and> b = CHR ''B'' \<and> n \<in> set ''1234''
      | _ \<Rightarrow> False)"

subsection \<open>Handlers\<close>

definition handleInputSubmit :: "(nat \<Rightarrow> ambient) \<Rightarrow> session \<Rightarrow> session" where
  \<comment> \<open>\<open>as i\<close> is what the \<open>i\<close>-th window of the burst reads from outside\<close>
  "handleInputSubmit as s =
     (let code = toUpperCase (trim (inputCode s))
      in if code = [] then s\<lparr>errorMsg := ''ERROR: INPUT REQUIRED''\<rparr>
         else if code \<in> set SUCCESS_CODES then s\<lparr>mode := Verified\<rparr>
         else if crashRegex_test code then
           (let taskId = take 2 code; visualId = drop 2 code
            in s\<lparr>crashTask := taskId, crashVisual := visualId, mode := Crash,
                 windows :=
                   map (\<lambda>i. createRandomWindow (as i) (100 + int i) None None
                                (Some taskId) (Some visualId)) [0..<5],
                 zCounter := 105\<rparr>)
         else s\<lparr>errorMsg := ''ERROR: INVALID CODE''\<rparr>)"

definition handleChange :: "string \<Rightarrow> session \<Rightarrow> session" where
  \<comment> \<open>\<^verbatim>\<open>onChange\<close> of the input field\<close>
  "handleChange v s =
     s\<lparr>inputCode := v, errorMsg := (if errorMsg s \<noteq> [] then [] else errorMsg s)\<rparr>"

definition spawnTick :: "ambient \<Rightarrow> session \<Rightarrow> session" where
  \<comment> \<open>one firing of the interval of the crash loop; the effect installs it only
      in crash mode\<close>
  "spawnTick a s =
     (if mode s \<noteq> Crash then s
      else s\<lparr>windows :=
                (if length (windows s) \<ge> MAX_WINDOWS then windows s
                 else windows s @
                        [createRandomWindow a (zCounter s) None None
                           (Some (crashTask s)) (Some (crashVisual s))]),
              zCounter := zCounter s + 1\<rparr>)"

definition closeWindow :: "ambient \<Rightarrow> ambient \<Rightarrow> string \<Rightarrow> int \<Rightarrow> int \<Rightarrow> session \<Rightarrow> session" where
  "closeWindow a1 a2 i x y s =
     (let kept = filter (\<lambda>w. w_id w \<noteq> i) (windows s)
      in if length (windows s) < MAX_WINDOWS then
           (let newZ = zCounter s + 2
            in s\<lparr>zCounter := newZ,
                 windows :=
                   kept @
                   [createRandomWindow a1 (newZ - 1) (Some (x - 20)) (Some (y - 20))
                      (Some (crashTask s)) (Some (crashVisual s)),
                    createRandomWindow a2 newZ (Some (x + 20)) (Some (y + 20))
                      (Some (crashTask s)) (Some (crashVisual s))]\<rparr>)
         else s\<lparr>windows := kept\<rparr>)"

definition focusWindow :: "string \<Rightarrow> session \<Rightarrow> session" where
  "focusWindow i s =
     s\<lparr>zCounter := zCounter s + 1,
       windows :=
         map (\<lambda>w. if w_id w = i then w\<lparr>w_zIndex := zCounter s + 1\<rparr> else w) (windows s)\<rparr>"

definition dragWindow :: "string \<Rightarrow> int \<Rightarrow> int \<Rightarrow> session \<Rightarrow> session" where
  "dragWindow i dx dy s =
     s\<lparr>windows :=
         map (\<lambda>w. if w_id w = i then w\<lparr>w_x := w_x w + dx, w_y := w_y w + dy\<rparr> else w)
           (windows s)\<rparr>"

definition handleRestart :: "session \<Rightarrow> session" where
  \<comment> \<open>the page is reloaded: the component starts again from its initial state\<close>
  "handleRestart s = initial"

subsection \<open>Sequences of events\<close>

datatype event =
    Change string
  | Submit "nat \<Rightarrow> ambient"
  | Tick ambient
  | Close ambient ambient string int int
  | Focus string
  | Drag string int int
  | Restart

fun step :: "event \<Rightarrow> session \<Rightarrow> session" where
  "step (Change v) s = handleChange v s"
| "step (Submit as) s = handleInputSubmit as s"
| "step (Tick a) s = spawnTick a s"
| "step (Close a1 a2 i x y) s = closeWindow a1 a2 i x y s"
| "step (Focus i) s = focusWindow i s"
| "step (Drag i dx dy) s = dragWindow i dx dy s"
| "step Restart s = handleRestart s"

fun run :: "event list \<Rightarrow> session \<Rightarrow> session" where
  "run [] s = s"
| "run (e # es) s = run es (step e s)"


subsection \<open>Concrete inputs\<close>

definition amb :: "string \<Rightarrow> ambient" where
  \<comment> \<open>a call that draws the given id and the third quarter of every range, in a
      viewport of 1280 by 720\<close>
  "amb i = \<lparr>a_id = i, a_type = 5 / 8, a_width = 5 / 8, a_height = 5 / 8,
            a_emoji = 5 / 8, a_posX = 5 / 8, a_posY = 5 / 8, a_rotation = 5 / 8,
            a_code = (\<lambda>k. 5 / 8), innerWidth = 1280, innerHeight = 720\<rparr>"

definition burst :: "nat \<Rightarrow> ambient" where
  \<comment> \<open>the five windows of a burst get the ids \<open>w0\<close> to \<open>w4\<close>\<close>
  "burst k = amb (if k < 5 then [''w0'', ''w1'', ''w2'', ''w3'', ''w4''] ! k else ''w'')"

definition tick_id :: "nat \<Rightarrow> string" where
  \<comment> \<open>the id drawn by the \<open>k\<close>-th tick: \<open>t\<close>, \<open>tt\<close>, \<open>ttt\<close>, ...\<close>
  "tick_id k = replicate (Suc k) (CHR ''t'')"

definition ticks :: "nat \<Rightarrow> event list" where
  \<comment> \<open>\<open>n\<close> firings of the crash loop\<close>
  "ticks n = map (\<lambda>k. Tick (amb (tick_id k))) [0..<n]"

definition crashed :: session where
  \<comment> \<open>the session after typing \<open>a1b2\<close> and submitting it\<close>
  "crashed = run [Change ''a1b2'', Submit burst] initial"

definition zorder_bounded :: "session \<Rightarrow> bool" where
  \<comment> \<open>no window lies above the counter\<close>
  "zorder_bounded s = (\<forall>w\<in>set (windows s). w_zIndex w \<le> zCounter s)"

section \<open>Facts about the window factory\<close>

lemma createRandomWindow_zIndex [simp]:
  "w_zIndex (createRandomWindow a z x y t v) = z"
  by (simp add: createRandomWindow_def Let_def split: prod.splits)

lemma createRandomWindow_id [simp]:
  "w_id (createRandomWindow a z x y t v) = a_id a"
  by (simp add: createRandomWindow_def Let_def split: prod.splits)

lemma createRandomWindow_pos [simp]:
  "w_x (createRandomWindow a z (Some x) y t v) = x"
  "w_y (createRandomWindow a z x' (Some y') t v) = y'"
  by (simp_all add: createRandomWindow_def Let_def split: prod.splits)

lemma createRandomWindow_type:
  "w_type (createRandomWindow a z x y t v) = randomItem types (a_type a)"
  by (simp add: createRandomWindow_def Let_def split: prod.splits)

lemma createRandomWindow_code:
  "randomItem types (a_type a) = Some CODE \<Longrightarrow>
   w_content (createRandomWindow a z x y t v) = Code (generateRandomCode (a_code a) default_lines)"
  by (simp add: createRandomWindow_def Let_def split: prod.splits)

lemma randomItem_in_range:
  assumes "0 \<le> u" "u < 1" "arr \<noteq> []"
  shows "\<exists>x\<in>set arr. randomItem arr u = Some x"
proof -
  let ?n = "length arr"
  have n: "0 < ?n" using assms by simp
  have lo: "0 \<le> \<lfloor>u * of_nat ?n\<rfloor>" using assms by simp
  have "u * of_nat ?n < of_nat ?n" using assms n by simp
  then have hi: "\<lfloor>u * of_nat ?n\<rfloor> < int ?n"
    by (simp add: floor_less_iff)
  from lo hi have "nat \<lfloor>u * of_nat ?n\<rfloor> < ?n" by linarith
  then have "arr ! nat \<lfloor>u * of_nat ?n\<rfloor> \<in> set arr" by simp
  with lo hi show ?thesis by (simp add: randomItem_def Let_def)
qed

lemma code_loop_eq:
  "code_loop us i n acc =
     acc @ concat (map (\<lambda>k. snippet_or_undefined (randomItem snippets (us k)) @ [newline]) [i..<n])"
proof (induction us i n acc rule: code_loop.induct)
  case (1 us i lines code)
  show ?case
  proof (cases "i < lines")
    case True
    then show ?thesis
      using "1.IH" by (subst code_loop.simps) (simp add: upt_conv_Cons)
  next
    case False
    then show ?thesis by (subst code_loop.simps) simp
  qed
qed

lemma generateRandomCode_eq:
  "generateRandomCode us n =
     concat (map (\<lambda>l. l @ [newline])
       (map (\<lambda>k. snippet_or_undefined (randomItem snippets (us k))) [0..<n]))"
  by (simp add: generateRandomCode_def code_loop_eq comp_def)

lemma snippets_no_newline: "\<forall>l\<in>set snippets. newline \<notin> set l"
  by (simp add: snippets_def newline_def)

lemma snippets_nonempty: "snippets \<noteq> []"
  by (simp add: snippets_def)

lemma floor_rat_numeral:
  "\<lfloor>numeral a / numeral b :: rat\<rfloor> = numeral a div numeral b"
  using floor_divide_of_int_eq [of "numeral a" "numeral b", where ?'a = rat] by simp



section \<open>The content of a code window\<close>

text \<open>
  Claim C9. Every window of kind \<open>CODE\<close> that \<^verbatim>\<open>createRandomWindow\<close> produces
  holds a text of exactly 20 lines, each of them an entry of the fixed pool of 12
  snippets, provided the 20 draws of \<^verbatim>\<open>Math.random()\<close> lie in \<open>[0, 1)\<close>.
  Every line, the last one too, ends with a line feed; no snippet contains one,
  so the text determines its lines.
\<close>

theorem code_window_content:
  assumes w: "w = createRandomWindow a z x y t v"
    and kind: "w_type w = Some CODE"
    and draws: "\<forall>k<20. 0 \<le> a_code a k \<and> a_code a k < 1"
  shows "\<exists>ls. length ls = 20 \<and> (\<forall>l\<in>set ls. l \<in> set snippets \<and> newline \<notin> set l) \<and>
           w_content w = Code (concat (map (\<lambda>l. l @ [newline]) ls))"
proof -
  let ?line = "\<lambda>k. snippet_or_undefined (randomItem snippets (a_code a k))"
  let ?ls = "map ?line [0..<20]"
  have ty: "randomItem types (a_type a) = Some CODE"
    using w kind by (simp add: createRandomWindow_type)
  have "w_content w = Code (generateRandomCode (a_code a) default_lines)"
    using w ty by (simp add: createRandomWindow_code)
  then have c: "w_content w = Code (concat (map (\<lambda>l. l @ [newline]) ?ls))"
    by (simp only: generateRandomCode_eq default_lines_def)
  have pool: "?line k \<in> set snippets" if "k < 20" for k
  proof -
    from draws that have "0 \<le> a_code a k" "a_code a k < 1" by auto
    from randomItem_in_range [OF this snippets_nonempty]
    show ?thesis by (auto simp: snippet_or_undefined_def)
  qed
  have "\<forall>l\<in>set ?ls. l \<in> set snippets \<and> newline \<notin> set l"
    using pool snippets_no_newline by auto
  moreover have "length ?ls = 20" by simp
  ultimately show ?thesis using c by blast
qed

theorem code_window_content_witness:
  "w_type (createRandomWindow (amb ''t'') 105 None None (Some ''A1'') (Some ''B2'')) = Some CODE \<and>
   (\<exists>ls. length ls = 20 \<and> (\<forall>l\<in>set ls. l \<in> set snippets \<and> newline \<notin> set l) \<and>
      w_content (createRandomWindow (amb ''t'') 105 None None (Some ''A1'') (Some ''B2'')) =
        Code (concat (map (\<lambda>l. l @ [newline]) ls)))"
proof -
  have k: "w_type (createRandomWindow (amb ''t'') 105 None None (Some ''A1'') (Some ''B2'')) = Some CODE"
    by (simp add: createRandomWindow_type amb_def randomItem_def types_def floor_rat_numeral)
  have d: "\<forall>k<20. 0 \<le> a_code (amb ''t'') k \<and> a_code (amb ''t'') k < 1"
    by (simp add: amb_def)
  show ?thesis
    by (intro conjI) (rule k, rule code_window_content [OF refl k d])
qed

lemma upt5: "[0..<5] = [0, 1, 2, 3, 4]"
  by (simp add: upt_rec)

lemmas normal_defs = toUpperCase_def trim_def isWhiteSpace_def upper_char_def

lemma crashRegex_nonempty: "crashRegex_test code \<Longrightarrow> code \<noteq> []"
  by (auto simp: crashRegex_test_def)

lemma burst_zIndex:
  "map w_zIndex (map (\<lambda>i. createRandomWindow (as i) (100 + int i) x y t v) [0..<5]) =
     [100, 101, 102, 103, 104]"
  by (simp add: upt5)

section \<open>Submitting a crash code\<close>

text \<open>
  Claim C6. When the input, trimmed and in upper case, matches \<^verbatim>\<open>^A[1-6]B[1-4]$\<close>
  and is no success code, the submit handler enters crash mode, stores the first two
  characters of the code as the task id and the rest as the visual id, and replaces
  the window collection by exactly five windows whose stacking keys are
  100, 101, 102, 103 and 104, in this order.
\<close>

theorem submit_crash_code:
  assumes "code = toUpperCase (trim (inputCode s))"
    and "crashRegex_test code"
    and "code \<notin> set SUCCESS_CODES"
  shows "mode (handleInputSubmit as s) = Crash \<and>
         crashTask (handleInputSubmit as s) = take 2 code \<and>
         crashVisual (handleInputSubmit as s) = drop 2 code \<and>
         length (windows (handleInputSubmit as s)) = 5 \<and>
         map w_zIndex (windows (handleInputSubmit as s)) = [100, 101, 102, 103, 104]"
  using assms crashRegex_nonempty [of code]
  by (simp add: handleInputSubmit_def Let_def burst_zIndex del: map_map)

theorem submit_crash_code_witness:
  "toUpperCase (trim (inputCode (handleChange '' a1b2 '' initial))) = ''A1B2'' \<and>
   crashRegex_test ''A1B2'' \<and> ''A1B2'' \<notin> set SUCCESS_CODES \<and>
   mode (handleInputSubmit burst (handleChange '' a1b2 '' initial)) = Crash \<and>
   crashTask (handleInputSubmit burst (handleChange '' a1b2 '' initial)) = ''A1'' \<and>
   crashVisual (handleInputSubmit burst (handleChange '' a1b2 '' initial)) = ''B2'' \<and>
   length (windows (handleInputSubmit burst (handleChange '' a1b2 '' initial))) = 5 \<and>
   map w_zIndex (windows (handleInputSubmit burst (handleChange '' a1b2 '' initial))) =
     [100, 101, 102, 103, 104]"
proof -
  have n: "toUpperCase (trim (inputCode (handleChange '' a1b2 '' initial))) = ''A1B2''"
    by (simp add: handleChange_def initial_def normal_defs)
  have r: "crashRegex_test ''A1B2''"
    by (simp add: crashRegex_test_def)
  have u: "''A1B2'' \<notin> set SUCCESS_CODES"
    by (simp add: SUCCESS_CODES_def)
  show ?thesis
    using submit_crash_code [OF n [symmetric] r u, of burst] n r u by simp
qed



lemma dropWhile_keep: "xs \<noteq> [] \<Longrightarrow> \<not> P (hd xs) \<Longrightarrow> dropWhile P xs = xs"
  by (cases xs) auto

lemma trim_padded:
  assumes "\<forall>c\<in>set l. isWhiteSpace c" "\<forall>c\<in>set r. isWhiteSpace c"
    and "v \<noteq> []" "\<not> isWhiteSpace (hd v)" "\<not> isWhiteSpace (last v)"
  shows "trim (l @ v @ r) = v"
proof -
  have "dropWhile isWhiteSpace (l @ v @ r) = dropWhile isWhiteSpace (v @ r)"
    using assms(1) by (simp add: dropWhile_append)
  also have "\<dots> = v @ r"
    using assms(3,4) by (simp add: dropWhile_keep)
  finally have a: "dropWhile isWhiteSpace (l @ v @ r) = v @ r" .
  have "dropWhile isWhiteSpace (rev r @ rev v) = dropWhile isWhiteSpace (rev v)"
    using assms(2) by (simp add: dropWhile_append)
  also have "\<dots> = rev v"
    using assms(3,5) by (simp add: dropWhile_keep hd_rev)
  finally show ?thesis using a by (simp add: trim_def)
qed

lemma upper_char_whitespace:
  assumes "isWhiteSpace c"
  shows "upper_char c = c"
proof -
  from assms consider "c = CHR 0x09" | "c = CHR 0x0A" | "c = CHR 0x0B" | "c = CHR 0x0C"
    | "c = CHR 0x0D" | "c = CHR 0x20"
    by (auto simp: isWhiteSpace_def)
  then show ?thesis
    by cases (simp_all add: upper_char_def)
qed

lemma success_edges:
  assumes "c \<in> set SUCCESS_CODES"
  shows "c \<noteq> [] \<and> \<not> isWhiteSpace (hd c) \<and> \<not> isWhiteSpace (last c)"
proof -
  have "\<forall>c\<in>set SUCCESS_CODES. c \<noteq> [] \<and> \<not> isWhiteSpace (hd c) \<and> \<not> isWhiteSpace (last c)"
    by (simp add: SUCCESS_CODES_def isWhiteSpace_def)
  with assms show ?thesis by blast
qed

lemma variant_edges:
  assumes "c \<in> set SUCCESS_CODES" "toUpperCase v = c"
  shows "v \<noteq> [] \<and> \<not> isWhiteSpace (hd v) \<and> \<not> isWhiteSpace (last v)"
proof -
  from assms success_edges [of c]
  have ne: "v \<noteq> []" and h: "\<not> isWhiteSpace (hd (map upper_char v))"
    and l: "\<not> isWhiteSpace (last (map upper_char v))"
    by (auto simp: toUpperCase_def)
  from ne h have "\<not> isWhiteSpace (hd v)"
    using upper_char_whitespace [of "hd v"] by (auto simp: hd_map)
  moreover from ne l have "\<not> isWhiteSpace (last v)"
    using upper_char_whitespace [of "last v"] by (auto simp: last_map)
  ultimately show ?thesis using ne by simp
qed

section \<open>Submitting a success code\<close>

text \<open>
  Claim C7. Let \<open>c\<close> be one of the eight success codes, \<open>v\<close> a spelling of \<open>c\<close>
  that differs from it in letter case only, and \<open>l\<close> and \<open>r\<close> runs of white space.
  Submitting \<open>l @ v @ r\<close> sets the mode to verified and leaves the window
  collection as it was (empty, when it was empty).
\<close>

theorem submit_success_code:
  assumes "c \<in> set SUCCESS_CODES"
    and "toUpperCase v = c"
    and "\<forall>ch\<in>set l. isWhiteSpace ch"
    and "\<forall>ch\<in>set r. isWhiteSpace ch"
    and "inputCode s = l @ v @ r"
  shows "mode (handleInputSubmit as s) = Verified \<and>
         windows (handleInputSubmit as s) = windows s"
proof -
  from variant_edges [OF assms(1,2)] assms(3,4)
  have "trim (l @ v @ r) = v" by (simp add: trim_padded)
  with assms have code: "toUpperCase (trim (inputCode s)) = c" by simp
  moreover have "c \<noteq> []" using success_edges [OF assms(1)] by simp
  ultimately show ?thesis
    using assms(1) by (simp add: handleInputSubmit_def Let_def)
qed

theorem submit_success_code_witness:
  "''A5B3'' \<in> set SUCCESS_CODES \<and> toUpperCase ''a5b3'' = ''A5B3'' \<and>
   mode (handleInputSubmit burst (handleChange (''  '' @ ''a5b3'' @ [CHR 0x09, CHR 0x0A]) initial)) = Verified \<and>
   windows (handleInputSubmit burst (handleChange (''  '' @ ''a5b3'' @ [CHR 0x09, CHR 0x0A]) initial)) = []"
proof -
  have c: "''A5B3'' \<in> set SUCCESS_CODES" by (simp add: SUCCESS_CODES_def)
  have v: "toUpperCase ''a5b3'' = ''A5B3''" by (simp add: normal_defs)
  have l: "\<forall>ch\<in>set ''  ''. isWhiteSpace ch" by (simp add: isWhiteSpace_def)
  have r: "\<forall>ch\<in>set [CHR 0x09, CHR 0x0A]. isWhiteSpace ch" by (simp add: isWhiteSpace_def)
  have i: "inputCode (handleChange (''  '' @ ''a5b3'' @ [CHR 0x09, CHR 0x0A]) initial) =
             ''  '' @ ''a5b3'' @ [CHR 0x09, CHR 0x0A]"
    by (simp add: handleChange_def)
  have w: "windows (handleChange (''  '' @ ''a5b3'' @ [CHR 0x09, CHR 0x0A]) initial) = []"
    by (simp add: handleChange_def initial_def)
  show ?thesis
    using submit_success_code [OF c v l r i, of burst] c v w by simp
qed

section \<open>Rejected submissions\<close>



section \<open>Facts about the handlers\<close>

lemmas handler_defs = handleInputSubmit_def handleChange_def spawnTick_def closeWindow_def
  focusWindow_def dragWindow_def handleRestart_def

lemmas run_defs = handleInputSubmit_def handleChange_def spawnTick_def closeWindow_def
  focusWindow_def dragWindow_def handleRestart_def toUpperCase_def trim_def isWhiteSpace_def
  upper_char_def initial_def SUCCESS_CODES_def crashRegex_test_def Let_def upt5 burst_def
  amb_def MAX_WINDOWS_def


lemma crashed_windows:
  "windows crashed =
     map (\<lambda>i. createRandomWindow (burst i) (100 + int i) None None (Some ''A1'') (Some ''B2''))
       [0..<5]"
  by (simp add: crashed_def handler_defs normal_defs initial_def SUCCESS_CODES_def
      crashRegex_test_def Let_def del: upt_Suc)

lemma crashed_mode: "mode crashed = Crash"
  by (simp add: crashed_def handler_defs normal_defs initial_def SUCCESS_CODES_def
      crashRegex_test_def Let_def)

lemma crashed_zCounter: "zCounter crashed = 105"
  by (simp add: crashed_def handler_defs normal_defs initial_def SUCCESS_CODES_def
      crashRegex_test_def Let_def)

lemma burst_ids:
  "map (\<lambda>i. a_id (burst i)) [0, 1, 2, 3, 4] = [''w0'', ''w1'', ''w2'', ''w3'', ''w4'']"
  by (simp add: burst_def amb_def)

lemma crashed_ids: "map w_id (windows crashed) = [''w0'', ''w1'', ''w2'', ''w3'', ''w4'']"
  using burst_ids by (simp add: crashed_windows upt5 comp_def)

lemma crashed_length: "length (windows crashed) = 5"
  by (simp add: crashed_windows)

subsection \<open>What each handler does to ids, stacking keys and the counter\<close>

lemma focus_zCounter: "zCounter (focusWindow i s) = zCounter s + 1"
  by (simp add: focusWindow_def)

lemma tick_ids:
  "mode s = Crash \<Longrightarrow> length (windows s) < MAX_WINDOWS \<Longrightarrow>
   map w_id (windows (spawnTick a s)) = map w_id (windows s) @ [a_id a]"
  by (simp add: spawnTick_def)

lemma tick_zCounter: "mode s = Crash \<Longrightarrow> zCounter (spawnTick a s) = zCounter s + 1"
  by (simp add: spawnTick_def)

lemma tick_mode: "mode (spawnTick a s) = mode s"
  by (simp add: spawnTick_def)

lemma close_ids:
  "length (windows s) < MAX_WINDOWS \<Longrightarrow>
   map w_id (windows (closeWindow a1 a2 i x y s)) =
     filter (\<lambda>j. j \<noteq> i) (map w_id (windows s)) @ [a_id a1, a_id a2]"
  by (simp add: closeWindow_def Let_def filter_map comp_def)

lemma close_zCounter:
  "zCounter (closeWindow a1 a2 i x y s) =
     (if length (windows s) < MAX_WINDOWS then zCounter s + 2 else zCounter s)"
  by (simp add: closeWindow_def Let_def)

lemma close_full:
  "MAX_WINDOWS \<le> length (windows s) \<Longrightarrow>
   windows (closeWindow a1 a2 i x y s) = filter (\<lambda>w. w_id w \<noteq> i) (windows s)"
  by (simp add: closeWindow_def Let_def)

lemma filter_absent:
  "i \<notin> set (map f xs) \<Longrightarrow> filter (\<lambda>w. f w \<noteq> i) xs = xs"
  by (induction xs) auto


subsection \<open>Runs of ticks\<close>

lemma run_ticks:
  "mode s = Crash \<Longrightarrow> length (windows s) + length as \<le> MAX_WINDOWS \<Longrightarrow>
   mode (run (map Tick as) s) = Crash \<and>
   map w_id (windows (run (map Tick as) s)) = map w_id (windows s) @ map a_id as \<and>
   zCounter (run (map Tick as) s) = zCounter s + int (length as)"
proof (induction as arbitrary: s)
  case Nil
  then show ?case by simp
next
  case (Cons a as)
  from Cons.prems have lt: "length (windows s) < MAX_WINDOWS" by simp
  have m: "mode (spawnTick a s) = Crash" using Cons.prems by (simp add: tick_mode)
  have i: "map w_id (windows (spawnTick a s)) = map w_id (windows s) @ [a_id a]"
    using Cons.prems lt by (simp add: tick_ids)
  then have "length (windows (spawnTick a s)) = length (windows s) + 1"
    by (metis length_map length_append_singleton Suc_eq_plus1)
  with Cons.prems have "length (windows (spawnTick a s)) + length as \<le> MAX_WINDOWS" by simp
  from Cons.IH [OF m this] i tick_zCounter [of s a] Cons.prems(1)
  show ?case by simp
qed

lemma ticks_run:
  assumes "mode s = Crash" "length (windows s) + n \<le> MAX_WINDOWS"
  shows "mode (run (ticks n) s) = Crash"
    and "map w_id (windows (run (ticks n) s)) = map w_id (windows s) @ map tick_id [0..<n]"
    and "length (windows (run (ticks n) s)) = length (windows s) + n"
    and "zCounter (run (ticks n) s) = zCounter s + int n"
proof -
  have t: "ticks n = map Tick (map (\<lambda>k. amb (tick_id k)) [0..<n])"
    by (simp add: ticks_def comp_def)
  have "length (windows s) + length (map (\<lambda>k. amb (tick_id k)) [0..<n]) \<le> MAX_WINDOWS"
    using assms by simp
  from run_ticks [OF assms(1) this]
  have a: "mode (run (ticks n) s) = Crash"
    and b: "map w_id (windows (run (ticks n) s)) =
            map w_id (windows s) @ map a_id (map (\<lambda>k. amb (tick_id k)) [0..<n])"
    and c: "zCounter (run (ticks n) s) = zCounter s + int n"
    unfolding t by simp_all
  have e: "map a_id (map (\<lambda>k. amb (tick_id k)) [0..<n]) = map tick_id [0..<n]"
    by (simp add: amb_def comp_def)
  show "mode (run (ticks n) s) = Crash" by (rule a)
  show i: "map w_id (windows (run (ticks n) s)) = map w_id (windows s) @ map tick_id [0..<n]"
    using b e by simp
  have "length (map w_id (windows (run (ticks n) s))) = length (windows s) + n"
    unfolding i by simp
  then show "length (windows (run (ticks n) s)) = length (windows s) + n" by simp
  show "zCounter (run (ticks n) s) = zCounter s + int n" by (rule c)
qed

lemma ghost_not_tick: "''ghost'' \<notin> set (map tick_id [0..<n])"
  by (auto simp: tick_id_def)

lemma w0_not_tick: "''w0'' \<notin> set (map tick_id [0..<n])"
  by (auto simp: tick_id_def)

subsection \<open>The stacking keys never pass the counter\<close>

lemma zorder_bounded_step: "zorder_bounded s \<Longrightarrow> zorder_bounded (step e s)"
proof (cases e)
  case (Change v)
  assume "zorder_bounded s"
  then show ?thesis using Change by (simp add: zorder_bounded_def handleChange_def)
next
  case (Submit as)
  assume "zorder_bounded s"
  then show ?thesis using Submit
    by (auto simp: zorder_bounded_def handleInputSubmit_def Let_def)
next
  case (Tick a)
  assume "zorder_bounded s"
  then show ?thesis using Tick
    by (fastforce simp: zorder_bounded_def spawnTick_def)
next
  case (Close a1 a2 i x y)
  assume "zorder_bounded s"
  then show ?thesis using Close
    by (fastforce simp: zorder_bounded_def closeWindow_def Let_def)
next
  case (Focus i)
  assume "zorder_bounded s"
  then show ?thesis using Focus
    by (fastforce simp: zorder_bounded_def focusWindow_def)
next
  case (Drag i dx dy)
  assume "zorder_bounded s"
  then show ?thesis using Drag
    by (fastforce simp: zorder_bounded_def dragWindow_def)
next
  case Restart
  then show ?thesis by (simp add: zorder_bounded_def handleRestart_def initial_def)
qed

lemma zorder_bounded_run: "zorder_bounded s \<Longrightarrow> zorder_bounded (run es s)"
  by (induction es arbitrary: s) (simp_all add: zorder_bounded_step)

lemma zorder_bounded_initial: "zorder_bounded initial"
  by (simp add: zorder_bounded_def initial_def)

lemma zorder_bounded_reachable: "zorder_bounded (run es initial)"
  by (rule zorder_bounded_run [OF zorder_bounded_initial])

section \<open>The counter bounds every stacking key\<close>

text \<open>
  Claim C10. After every sequence of events from the start of the session (typing,
  submitting, ticks of the crash loop, focus, close, drag, restart), every window of
  the collection has a stacking key that is at most the counter. The burst of a crash
  code gives the keys 100 to 104 and sets the counter to 105.
\<close>

theorem zIndex_le_zCounter:
  "(\<forall>w\<in>set (windows (run es initial)). w_zIndex w \<le> zCounter (run es initial)) \<and>
   (crashRegex_test (toUpperCase (trim (inputCode s))) \<and>
    toUpperCase (trim (inputCode s)) \<notin> set SUCCESS_CODES \<longrightarrow>
      map w_zIndex (windows (handleInputSubmit as s)) = [100, 101, 102, 103, 104] \<and>
      zCounter (handleInputSubmit as s) = 105)"
proof (intro conjI impI)
  show "\<forall>w\<in>set (windows (run es initial)). w_zIndex w \<le> zCounter (run es initial)"
    using zorder_bounded_reachable [of es] by (simp add: zorder_bounded_def)
next
  assume a: "crashRegex_test (toUpperCase (trim (inputCode s))) \<and>
    toUpperCase (trim (inputCode s)) \<notin> set SUCCESS_CODES"
  then have "toUpperCase (trim (inputCode s)) \<noteq> []"
    using crashRegex_nonempty by blast
  with a show "map w_zIndex (windows (handleInputSubmit as s)) = [100, 101, 102, 103, 104]"
    and "zCounter (handleInputSubmit as s) = 105"
    by (simp_all add: handleInputSubmit_def Let_def burst_zIndex del: map_map)
qed

theorem zIndex_le_zCounter_witness:
  "map w_zIndex (windows (run [Change ''a1b2'', Submit burst, Tick (amb ''t''), Focus ''w1''] initial)) =
     [100, 107, 102, 103, 104, 105] \<and>
   zCounter (run [Change ''a1b2'', Submit burst, Tick (amb ''t''), Focus ''w1''] initial) = 107 \<and>
   w_zIndex (windows (run [Change ''a1b2'', Submit burst, Tick (amb ''t''), Focus ''w1''] initial) ! 1)
     \<le> zCounter (run [Change ''a1b2'', Submit burst, Tick (amb ''t''), Focus ''w1''] initial)"
proof -
  let ?s = "run [Change ''a1b2'', Submit burst, Tick (amb ''t''), Focus ''w1''] initial"
  have zs: "map w_zIndex (windows ?s) = [100, 107, 102, 103, 104, 105]"
    by (simp add: run_defs)
  have c: "zCounter ?s = 107"
    by (simp add: run_defs)
  have "length (windows ?s) = 6"
    by (simp add: run_defs)
  then have "windows ?s ! 1 \<in> set (windows ?s)" by simp
  with zIndex_le_zCounter [of "[Change ''a1b2'', Submit burst, Tick (amb ''t''), Focus ''w1'']"]
  have "w_zIndex (windows ?s ! 1) \<le> zCounter ?s" by blast
  with zs c show ?thesis by simp
qed


section \<open>Closing an id that no window carries\<close>

text \<open>
  Claim C4, as amended. Closing an id that no window of the collection carries
  removes nothing. When the collection holds 40 windows or more, the session is
  unchanged. When it holds fewer than 40, the two replacement windows are appended
  all the same, at \<open>(x - 20, y - 20)\<close> and \<open>(x + 20, y + 20)\<close> with the stacking keys
  counter + 1 and counter + 2, and the counter advances by 2.
\<close>

theorem close_absent_window:
  assumes "i \<notin> set (map w_id (windows s))"
  shows "(length (windows s) < MAX_WINDOWS \<longrightarrow>
            (\<exists>n1 n2.
               windows (closeWindow a1 a2 i x y s) = windows s @ [n1, n2] \<and>
               w_x n1 = x - 20 \<and> w_y n1 = y - 20 \<and> w_zIndex n1 = zCounter s + 1 \<and>
               w_x n2 = x + 20 \<and> w_y n2 = y + 20 \<and> w_zIndex n2 = zCounter s + 2) \<and>
            zCounter (closeWindow a1 a2 i x y s) = zCounter s + 2) \<and>
         (MAX_WINDOWS \<le> length (windows s) \<longrightarrow> closeWindow a1 a2 i x y s = s)"
proof -
  have k: "filter (\<lambda>w. w_id w \<noteq> i) (windows s) = windows s"
    using assms by (rule filter_absent)
  have below: "length (windows s) < MAX_WINDOWS \<longrightarrow>
            (\<exists>n1 n2.
               windows (closeWindow a1 a2 i x y s) = windows s @ [n1, n2] \<and>
               w_x n1 = x - 20 \<and> w_y n1 = y - 20 \<and> w_zIndex n1 = zCounter s + 1 \<and>
               w_x n2 = x + 20 \<and> w_y n2 = y + 20 \<and> w_zIndex n2 = zCounter s + 2) \<and>
            zCounter (closeWindow a1 a2 i x y s) = zCounter s + 2"
  proof
    assume lt: "length (windows s) < MAX_WINDOWS"
    let ?n1 = "createRandomWindow a1 (zCounter s + 2 - 1) (Some (x - 20)) (Some (y - 20))
                 (Some (crashTask s)) (Some (crashVisual s))"
    let ?n2 = "createRandomWindow a2 (zCounter s + 2) (Some (x + 20)) (Some (y + 20))
                 (Some (crashTask s)) (Some (crashVisual s))"
    have w: "windows (closeWindow a1 a2 i x y s) = windows s @ [?n1, ?n2]"
      using lt k by (simp add: closeWindow_def Let_def)
    have f: "w_x ?n1 = x - 20 \<and> w_y ?n1 = y - 20 \<and> w_zIndex ?n1 = zCounter s + 1 \<and>
             w_x ?n2 = x + 20 \<and> w_y ?n2 = y + 20 \<and> w_zIndex ?n2 = zCounter s + 2"
      by simp
    have z: "zCounter (closeWindow a1 a2 i x y s) = zCounter s + 2"
      using lt by (simp add: close_zCounter)
    from w f z show "(\<exists>n1 n2.
               windows (closeWindow a1 a2 i x y s) = windows s @ [n1, n2] \<and>
               w_x n1 = x - 20 \<and> w_y n1 = y - 20 \<and> w_zIndex n1 = zCounter s + 1 \<and>
               w_x n2 = x + 20 \<and> w_y n2 = y + 20 \<and> w_zIndex n2 = zCounter s + 2) \<and>
            zCounter (closeWindow a1 a2 i x y s) = zCounter s + 2"
      by blast
  qed
  have full: "MAX_WINDOWS \<le> length (windows s) \<longrightarrow> closeWindow a1 a2 i x y s = s"
    using k by (simp add: closeWindow_def Let_def)
  from below full show ?thesis by blast
qed

theorem close_absent_window_witness:
  "''ghost'' \<notin> set (map w_id (windows crashed)) \<and>
   length (windows crashed) < MAX_WINDOWS \<and>
   zCounter (closeWindow (amb ''p'') (amb ''q'') ''ghost'' 10 10 crashed) = 107 \<and>
   ''ghost'' \<notin> set (map w_id (windows (run (ticks 35) crashed))) \<and>
   MAX_WINDOWS \<le> length (windows (run (ticks 35) crashed)) \<and>
   closeWindow (amb ''p'') (amb ''q'') ''ghost'' 10 10 (run (ticks 35) crashed) =
     run (ticks 35) crashed"
proof -
  have a: "''ghost'' \<notin> set (map w_id (windows crashed))" by (simp add: crashed_ids)
  have c: "length (windows crashed) < MAX_WINDOWS"
    by (simp add: crashed_length MAX_WINDOWS_def)
  have r: "length (windows crashed) + 35 \<le> MAX_WINDOWS"
    by (simp add: crashed_length MAX_WINDOWS_def)
  note t = ticks_run [OF crashed_mode r]
  have a': "''ghost'' \<notin> set (map w_id (windows (run (ticks 35) crashed)))"
    unfolding t(2) using ghost_not_tick [of 35] by (simp add: crashed_ids)
  have c': "MAX_WINDOWS \<le> length (windows (run (ticks 35) crashed))"
    unfolding t(3) by (simp add: crashed_length MAX_WINDOWS_def)
  from close_absent_window [OF a, of "amb ''p''" "amb ''q''" 10 10] c
  have d: "zCounter (closeWindow (amb ''p'') (amb ''q'') ''ghost'' 10 10 crashed) = 107"
    by (simp add: crashed_zCounter)
  from close_absent_window [OF a', of "amb ''p''" "amb ''q''" 10 10] c'
  have e: "closeWindow (amb ''p'') (amb ''q'') ''ghost'' 10 10 (run (ticks 35) crashed) =
     run (ticks 35) crashed"
    by blast
  from a c d a' c' e show ?thesis by blast
qed

text \<open>
  Claim C4, as stated, fails: after the burst of five windows, closing the id
  \<open>ghost\<close>, which no window carries, leaves seven windows and moves the counter
  from 105 to 107.
\<close>

theorem close_absent_not_noop:
  "''ghost'' \<notin> set (map w_id (windows crashed)) \<and>
   length (windows crashed) = 5 \<and> zCounter crashed = 105 \<and>
   length (windows (closeWindow (amb ''p'') (amb ''q'') ''ghost'' 10 10 crashed)) = 7 \<and>
   zCounter (closeWindow (amb ''p'') (amb ''q'') ''ghost'' 10 10 crashed) = 107 \<and>
   closeWindow (amb ''p'') (amb ''q'') ''ghost'' 10 10 crashed \<noteq> crashed"
proof -
  have a: "''ghost'' \<notin> set (map w_id (windows crashed))" by (simp add: crashed_ids)
  have lt: "length (windows crashed) < MAX_WINDOWS"
    by (simp add: crashed_length MAX_WINDOWS_def)
  have "length (map w_id (windows (closeWindow (amb ''p'') (amb ''q'') ''ghost'' 10 10 crashed))) = 7"
    unfolding close_ids [OF lt] by (simp add: crashed_ids)
  then have l: "length (windows (closeWindow (amb ''p'') (amb ''q'') ''ghost'' 10 10 crashed)) = 7"
    by simp
  have z: "zCounter (closeWindow (amb ''p'') (amb ''q'') ''ghost'' 10 10 crashed) = 107"
    using lt by (simp add: close_zCounter crashed_zCounter)
  have "zCounter (closeWindow (amb ''p'') (amb ''q'') ''ghost'' 10 10 crashed) \<noteq> zCounter crashed"
    unfolding z by (simp add: crashed_zCounter)
  then have n: "closeWindow (amb ''p'') (amb ''q'') ''ghost'' 10 10 crashed \<noteq> crashed"
    by auto
  from a l z n crashed_length crashed_zCounter show ?thesis by blast
qed

section \<open>Focusing a window\<close>

text \<open>
  Claim C5, as amended. In every state reached from the start of the session, focus
  increments the counter by 1, whether or not a window carries the id; every window
  that carries the id gets the stacking key counter + 1 and nothing else of it
  changes; every other window is left as it is and its key is strictly below
  counter + 1; when no window carries the id, the collection is unchanged.
\<close>

theorem focus_window_effect:
  assumes "s = run es initial"
  shows "zCounter (focusWindow i s) = zCounter s + 1 \<and>
         windows (focusWindow i s) =
           map (\<lambda>w. if w_id w = i then w\<lparr>w_zIndex := zCounter s + 1\<rparr> else w) (windows s) \<and>
         (\<forall>w\<in>set (windows s). w_id w \<noteq> i \<longrightarrow> w_zIndex w < zCounter s + 1) \<and>
         (i \<notin> set (map w_id (windows s)) \<longrightarrow> windows (focusWindow i s) = windows s)"
proof -
  have "zorder_bounded s"
    unfolding assms by (rule zorder_bounded_reachable)
  then have below: "\<forall>w\<in>set (windows s). w_id w \<noteq> i \<longrightarrow> w_zIndex w < zCounter s + 1"
    by (fastforce simp: zorder_bounded_def)
  have same: "i \<notin> set (map w_id (windows s)) \<longrightarrow> windows (focusWindow i s) = windows s"
  proof
    assume "i \<notin> set (map w_id (windows s))"
    then have "map (\<lambda>w. if w_id w = i then w\<lparr>w_zIndex := zCounter s + 1\<rparr> else w) (windows s) =
        map (\<lambda>w. w) (windows s)"
      by (intro map_cong) auto
    then show "windows (focusWindow i s) = windows s"
      by (simp add: focusWindow_def)
  qed
  from below same show ?thesis
    by (simp add: focusWindow_def)
qed

theorem focus_window_effect_witness:
  "''w0'' \<in> set (map w_id (windows crashed)) \<and>
   zCounter (focusWindow ''w0'' crashed) = 106 \<and>
   map w_zIndex (windows (focusWindow ''w0'' crashed)) = [106, 101, 102, 103, 104] \<and>
   w_zIndex (windows crashed ! 1) < zCounter crashed + 1"
proof -
  have a: "''w0'' \<in> set (map w_id (windows crashed))" by (simp add: crashed_ids)
  have r: "crashed = run [Change ''a1b2'', Submit burst] initial" by (rule crashed_def)
  note f = focus_window_effect [OF r, of "''w0''"]
  from f have c: "zCounter (focusWindow ''w0'' crashed) = 106"
    by (simp add: crashed_zCounter)
  have z: "map w_zIndex (windows (focusWindow ''w0'' crashed)) = [106, 101, 102, 103, 104]"
    by (simp add: crashed_def run_defs)
  have m: "windows crashed ! 1 \<in> set (windows crashed)"
    by (simp add: crashed_length)
  have "w_id (windows crashed ! 1) = map w_id (windows crashed) ! 1"
    by (simp add: crashed_length)
  then have "w_id (windows crashed ! 1) \<noteq> ''w0''"
    by (simp add: crashed_ids)
  with f m have b: "w_zIndex (windows crashed ! 1) < zCounter crashed + 1" by blast
  from a c z b show ?thesis by blast
qed

text \<open>
  Claim C5, as stated, fails in its last part: focusing the id \<open>ghost\<close>, which no
  window of the burst carries, moves the counter from 105 to 106.
\<close>

theorem focus_absent_moves_counter:
  "''ghost'' \<notin> set (map w_id (windows crashed)) \<and> zCounter crashed = 105 \<and>
   zCounter (focusWindow ''ghost'' crashed) = 106 \<and>
   focusWindow ''ghost'' crashed \<noteq> crashed"
proof -
  have a: "''ghost'' \<notin> set (map w_id (windows crashed))" by (simp add: crashed_ids)
  have z: "zCounter (focusWindow ''ghost'' crashed) = 106"
    by (simp add: focus_zCounter crashed_zCounter)
  have "zCounter (focusWindow ''ghost'' crashed) \<noteq> zCounter crashed"
    unfolding z by (simp add: crashed_zCounter)
  then have "focusWindow ''ghost'' crashed \<noteq> crashed" by auto
  with a z crashed_zCounter show ?thesis by blast
qed

section \<open>Stacking keys and fresh values\<close>

text \<open>
  Claim C3 at a concrete session: type \<open>a1b2\<close>, submit, focus the first window
  of the burst, let the crash loop fire once. Focus gives the window \<open>w0\<close> the key
  106 and leaves the counter at 106; the tick then gives the new window \<open>t\<close> the
  counter's value, 106 again. Two assignments share one key.
\<close>

theorem zIndex_reused_after_focus:
  "map w_id (windows (run [Change ''a1b2'', Submit burst, Focus ''w0'', Tick (amb ''t'')] initial)) =
     [''w0'', ''w1'', ''w2'', ''w3'', ''w4'', ''t''] \<and>
   map w_zIndex (windows (run [Change ''a1b2'', Submit burst, Focus ''w0'', Tick (amb ''t'')] initial)) =
     [106, 101, 102, 103, 104, 106] \<and>
   map w_zIndex (windows (run [Change ''a1b2'', Submit burst, Focus ''w0''] initial)) =
     [106, 101, 102, 103, 104] \<and>
   \<not> distinct (map w_zIndex
       (windows (run [Change ''a1b2'', Submit burst, Focus ''w0'', Tick (amb ''t'')] initial)))"
proof -
  have a: "map w_id (windows (run [Change ''a1b2'', Submit burst, Focus ''w0'', Tick (amb ''t'')] initial)) =
     [''w0'', ''w1'', ''w2'', ''w3'', ''w4'', ''t'']"
    by (simp add: run_defs)
  have b: "map w_zIndex (windows (run [Change ''a1b2'', Submit burst, Focus ''w0'', Tick (amb ''t'')] initial)) =
     [106, 101, 102, 103, 104, 106]"
    by (simp add: run_defs)
  have c: "map w_zIndex (windows (run [Change ''a1b2'', Submit burst, Focus ''w0''] initial)) =
     [106, 101, 102, 103, 104]"
    by (simp add: run_defs)
  have d: "\<not> distinct (map w_zIndex
       (windows (run [Change ''a1b2'', Submit burst, Focus ''w0'', Tick (amb ''t'')] initial)))"
    unfolding b by simp
  from a b c d show ?thesis by blast
qed

section \<open>The cap on the collection\<close>









section \<open>Closing a window\<close>

text \<open>
  Claim C2. Closing an id that exactly one window of the collection carries: when
  the collection held fewer than 40 windows before the removal, the window is
  removed and two replacements are appended, at \<open>(x - 20, y - 20)\<close> and
  \<open>(x + 20, y + 20)\<close>, with the stacking keys counter + 1 and counter + 2; the
  counter advances by 2 and the collection grows by one. When it held exactly 40
  windows, the window is removed, nothing is appended, the counter stays, and the
  collection shrinks by one.
\<close>

theorem close_present_window:
  assumes "length (filter (\<lambda>w. w_id w = i) (windows s)) = 1"
  shows "(length (windows s) < MAX_WINDOWS \<longrightarrow>
            (\<exists>n1 n2.
               windows (closeWindow a1 a2 i x y s) =
                 filter (\<lambda>w. w_id w \<noteq> i) (windows s) @ [n1, n2] \<and>
               w_x n1 = x - 20 \<and> w_y n1 = y - 20 \<and> w_zIndex n1 = zCounter s + 1 \<and>
               w_x n2 = x + 20 \<and> w_y n2 = y + 20 \<and> w_zIndex n2 = zCounter s + 2) \<and>
            zCounter (closeWindow a1 a2 i x y s) = zCounter s + 2 \<and>
            length (windows (closeWindow a1 a2 i x y s)) = length (windows s) + 1) \<and>
         (length (windows s) = MAX_WINDOWS \<longrightarrow>
            windows (closeWindow a1 a2 i x y s) = filter (\<lambda>w. w_id w \<noteq> i) (windows s) \<and>
            zCounter (closeWindow a1 a2 i x y s) = zCounter s \<and>
            length (windows (closeWindow a1 a2 i x y s)) + 1 = length (windows s)) \<and>
         i \<notin> set (map w_id (filter (\<lambda>w. w_id w \<noteq> i) (windows s))) \<and>
         length (filter (\<lambda>w. w_id w \<noteq> i) (windows s)) + 1 = length (windows s)"
proof -
  have one: "length (filter (\<lambda>w. w_id w \<noteq> i) (windows s)) + 1 = length (windows s)"
    using assms sum_length_filter_compl [of "\<lambda>w. w_id w = i" "windows s"] by simp
  have gone: "i \<notin> set (map w_id (filter (\<lambda>w. w_id w \<noteq> i) (windows s)))"
    by auto
  have below: "length (windows s) < MAX_WINDOWS \<longrightarrow>
            (\<exists>n1 n2.
               windows (closeWindow a1 a2 i x y s) =
                 filter (\<lambda>w. w_id w \<noteq> i) (windows s) @ [n1, n2] \<and>
               w_x n1 = x - 20 \<and> w_y n1 = y - 20 \<and> w_zIndex n1 = zCounter s + 1 \<and>
               w_x n2 = x + 20 \<and> w_y n2 = y + 20 \<and> w_zIndex n2 = zCounter s + 2) \<and>
            zCounter (closeWindow a1 a2 i x y s) = zCounter s + 2 \<and>
            length (windows (closeWindow a1 a2 i x y s)) = length (windows s) + 1"
  proof
    assume lt: "length (windows s) < MAX_WINDOWS"
    let ?n1 = "createRandomWindow a1 (zCounter s + 2 - 1) (Some (x - 20)) (Some (y - 20))
                 (Some (crashTask s)) (Some (crashVisual s))"
    let ?n2 = "createRandomWindow a2 (zCounter s + 2) (Some (x + 20)) (Some (y + 20))
                 (Some (crashTask s)) (Some (crashVisual s))"
    have w: "windows (closeWindow a1 a2 i x y s) =
               filter (\<lambda>w. w_id w \<noteq> i) (windows s) @ [?n1, ?n2]"
      using lt by (simp add: closeWindow_def Let_def)
    have f: "w_x ?n1 = x - 20 \<and> w_y ?n1 = y - 20 \<and> w_zIndex ?n1 = zCounter s + 1 \<and>
             w_x ?n2 = x + 20 \<and> w_y ?n2 = y + 20 \<and> w_zIndex ?n2 = zCounter s + 2"
      by simp
    have z: "zCounter (closeWindow a1 a2 i x y s) = zCounter s + 2"
      using lt by (simp add: close_zCounter)
    have l: "length (windows (closeWindow a1 a2 i x y s)) = length (windows s) + 1"
      unfolding w using one by simp
    from w f z l show "(\<exists>n1 n2.
               windows (closeWindow a1 a2 i x y s) =
                 filter (\<lambda>w. w_id w \<noteq> i) (windows s) @ [n1, n2] \<and>
               w_x n1 = x - 20 \<and> w_y n1 = y - 20 \<and> w_zIndex n1 = zCounter s + 1 \<and>
               w_x n2 = x + 20 \<and> w_y n2 = y + 20 \<and> w_zIndex n2 = zCounter s + 2) \<and>
            zCounter (closeWindow a1 a2 i x y s) = zCounter s + 2 \<and>
            length (windows (closeWindow a1 a2 i x y s)) = length (windows s) + 1"
      by blast
  qed
  have full: "length (windows s) = MAX_WINDOWS \<longrightarrow>
            windows (closeWindow a1 a2 i x y s) = filter (\<lambda>w. w_id w \<noteq> i) (windows s) \<and>
            zCounter (closeWindow a1 a2 i x y s) = zCounter s \<and>
            length (windows (closeWindow a1 a2 i x y s)) + 1 = length (windows s)"
    using one by (simp add: close_full close_zCounter)
  from below full gone one show ?thesis by blast
qed

lemma count_id:
  "length (filter (\<lambda>w. w_id w = i) ws) = length (filter (\<lambda>j. j = i) (map w_id ws))"
  by (simp add: filter_map comp_def)

theorem close_present_window_witness:
  "length (filter (\<lambda>w. w_id w = ''w0'') (windows crashed)) = 1 \<and>
   length (windows crashed) < MAX_WINDOWS \<and>
   zCounter (closeWindow (amb ''p'') (amb ''q'') ''w0'' 10 10 crashed) = zCounter crashed + 2 \<and>
   length (windows (closeWindow (amb ''p'') (amb ''q'') ''w0'' 10 10 crashed)) = 6 \<and>
   length (filter (\<lambda>w. w_id w = ''w0'') (windows (run (ticks 35) crashed))) = 1 \<and>
   length (windows (run (ticks 35) crashed)) = MAX_WINDOWS \<and>
   length (windows (closeWindow (amb ''p'') (amb ''q'') ''w0'' 10 10 (run (ticks 35) crashed))) + 1 = 40"
proof -
  have a: "length (filter (\<lambda>w. w_id w = ''w0'') (windows crashed)) = 1"
    by (simp add: count_id crashed_ids)
  have c: "length (windows crashed) < MAX_WINDOWS"
    by (simp add: crashed_length MAX_WINDOWS_def)
  have r: "length (windows crashed) + 35 \<le> MAX_WINDOWS"
    by (simp add: crashed_length MAX_WINDOWS_def)
  note t = ticks_run [OF crashed_mode r]
  have "filter (\<lambda>j. j = ''w0'') (map tick_id [0..<35]) = []"
    using w0_not_tick [of 35] by (simp only: filter_empty_conv) blast
  then have a': "length (filter (\<lambda>w. w_id w = ''w0'') (windows (run (ticks 35) crashed))) = 1"
    unfolding count_id t(2) by (simp add: crashed_ids)
  have c': "length (windows (run (ticks 35) crashed)) = MAX_WINDOWS"
    unfolding t(3) by (simp add: crashed_length MAX_WINDOWS_def)
  from close_present_window [OF a, of "amb ''p''" "amb ''q''" 10 10] c
  have d: "zCounter (closeWindow (amb ''p'') (amb ''q'') ''w0'' 10 10 crashed) = zCounter crashed + 2"
    and e: "length (windows (closeWindow (amb ''p'') (amb ''q'') ''w0'' 10 10 crashed)) = 6"
    by (simp_all add: crashed_length)
  from close_present_window [OF a', of "amb ''p''" "amb ''q''" 10 10] c'
  have f: "length (windows (closeWindow (amb ''p'') (amb ''q'') ''w0'' 10 10 (run (ticks 35) crashed))) + 1 = 40"
    by (simp add: MAX_WINDOWS_def)
  from a c d e a' c' f show ?thesis by blast
qed

end
